theory Spec2Isabelle
  imports Complex_Main "HOL-Library.Log_Nat"
begin

text \<open>
  A shallow embedding of \<^verbatim>\<open>create_realistic_property_data\<close> from
  \<^verbatim>\<open>step2_realistic_data.py\<close>, the synthetic property generator.

  The generator is Python: its integers are unbounded (\<open>int\<close>), its floats are IEEE
  binary64 values, its random draws come from the process-wide Mersenne Twister of the
  \<^verbatim>\<open>random\<close> module and its listing dates from \<^verbatim>\<open>datetime.now()\<close>. The model
  makes each of these explicit: a float is the real number it denotes, every float
  operation rounds the exact result to the nearest binary64 value; the state of the
  random source is threaded through every draw; the clock is an input.
\<close>

section \<open>Python floats\<close>

text \<open>
  A binary64 value is modelled by the real number it denotes. \<open>fl\<close> rounds a real to the
  nearest value with a 53-bit significand, ties to even: \<open>expo x\<close> is the exponent
  \<open>e\<close> with \<open>2^e \<le> |x| < 2^(e+1)\<close>, the spacing of the representable values there
  is \<open>2^(e-52)\<close>, and \<open>rhe\<close> rounds to the nearest integer, ties to even. The exponent
  range is not bounded: overflow to infinity and gradual underflow are outside the model
  (every quantity the generator computes from its tables is zero or lies between
  \<open>10^-2\<close> and \<open>10^8\<close> in magnitude).

  \<open>fadd\<close>, \<open>fsub\<close>, \<open>fmul\<close> are Python's \<^verbatim>\<open>+\<close>, \<^verbatim>\<open>-\<close>, \<^verbatim>\<open>*\<close> on floats,
  \<open>float_of_int\<close> the conversion applied to an \<^verbatim>\<open>int\<close> operand of a mixed operation,
  \<open>int_truediv\<close> the correctly rounded \<^verbatim>\<open>int / int\<close>, \<open>trunc\<close> is \<^verbatim>\<open>int(x)\<close>
  (truncation towards zero), and \<open>round2 x\<close> is \<^verbatim>\<open>round(x, 2)\<close>: the exact value of
  \<open>x\<close> rounded to two decimals, ties to even, then converted back to the nearest float.
  A float literal of the source such as \<^verbatim>\<open>0.4\<close> is \<open>fl (4 / 10)\<close>.
\<close>

definition expo :: "real \<Rightarrow> int" where
  "expo x = (if 1 \<le> \<bar>x\<bar> then int (floorlog 2 (nat \<lfloor>\<bar>x\<bar>\<rfloor>)) - 1
             else - int (floorlog 2 (nat (\<lceil>1 / \<bar>x\<bar>\<rceil> - 1))))"

definition rhe :: "real \<Rightarrow> int" where
  "rhe x = (let f = \<lfloor>x\<rfloor>; d = x - of_int f in
            if d < 1 / 2 then f
            else if 1 / 2 < d then f + 1
            else if even f then f else f + 1)"

definition fl :: "real \<Rightarrow> real" where
  "fl x = (if x = 0 then 0
           else let q = 2 powi (expo x - 52) in of_int (rhe (x / q)) * q)"

definition fadd :: "real \<Rightarrow> real \<Rightarrow> real" where
  "fadd x y = fl (x + y)"

definition fsub :: "real \<Rightarrow> real \<Rightarrow> real" where
  "fsub x y = fl (x - y)"

definition fmul :: "real \<Rightarrow> real \<Rightarrow> real" where
  "fmul x y = fl (x * y)"

definition float_of_int :: "int \<Rightarrow> real" where
  "float_of_int i = fl (of_int i)"

definition int_truediv :: "int \<Rightarrow> int \<Rightarrow> real" where
  "int_truediv a b = fl (of_int a / of_int b)"

definition trunc :: "real \<Rightarrow> int" where
  "trunc x = (if 0 \<le> x then \<lfloor>x\<rfloor> else \<lceil>x\<rceil>)"

definition round2 :: "real \<Rightarrow> real" where
  "round2 x = fl (of_int (rhe (x * 100)) / 100)"

section \<open>Errors\<close>

text \<open>
  The exceptions the generator's library calls can raise: \<^verbatim>\<open>random.choice\<close> on an
  empty sequence raises \<^verbatim>\<open>IndexError\<close>, \<^verbatim>\<open>random.randint\<close> on an empty range raises
  \<^verbatim>\<open>ValueError\<close>, a dictionary lookup of a missing key raises \<^verbatim>\<open>KeyError\<close>. The
  source defines no exception of its own. \<open>bind\<close> propagates the first error.
\<close>

datatype error = IndexError | ValueError | KeyError

definition bind :: "error + 'a \<Rightarrow> ('a \<Rightarrow> error + 'b) \<Rightarrow> error + 'b" where
  "bind m f = (case m of Inl e \<Rightarrow> Inl e | Inr x \<Rightarrow> f x)"

section \<open>The random module\<close>

text \<open>
  The Mersenne Twister itself is library code. Its two primitives are the fields of a
  \<open>source\<close> over a state type \<open>'s\<close>: \<open>rng_randbelow n\<close> (\<^verbatim>\<open>_randbelow(n)\<close>, an integer
  below \<open>n\<close>) and \<open>rng_random\<close> (\<^verbatim>\<open>random()\<close>, a float in \<open>[0, 1)\<close>); each returns the
  next state. \<open>choice\<close>, \<open>randint\<close> and \<open>uniform\<close> are written over them as in
  \<^verbatim>\<open>random.py\<close>: \<^verbatim>\<open>choice(seq)\<close> is \<^verbatim>\<open>seq[_randbelow(len(seq))]\<close>,
  \<^verbatim>\<open>randint(a, b)\<close> is \<^verbatim>\<open>a + _randbelow(b + 1 - a)\<close>, and \<^verbatim>\<open>uniform(a, b)\<close> is
  \<^verbatim>\<open>a + (b - a) * random()\<close>.
\<close>

record 's source =
  rng_randbelow :: "nat \<Rightarrow> 's \<Rightarrow> nat \<times> 's"
  rng_random :: "'s \<Rightarrow> real \<times> 's"

definition choice :: "'s source \<Rightarrow> 'a list \<Rightarrow> 's \<Rightarrow> error + ('a \<times> 's)" where
  "choice R seq s =
     (if seq = [] then Inl IndexError
      else (let (i, s') = rng_randbelow R (length seq) s in
            if i < length seq then Inr (seq ! i, s') else Inl IndexError))"

definition randint :: "'s source \<Rightarrow> int \<Rightarrow> int \<Rightarrow> 's \<Rightarrow> error + (int \<times> 's)" where
  "randint R a b s =
     (let width = b + 1 - a in
      if 0 < width then (let (r, s') = rng_randbelow R (nat width) s in Inr (a + int r, s'))
      else Inl ValueError)"

definition uniform :: "'s source \<Rightarrow> real \<Rightarrow> real \<Rightarrow> 's \<Rightarrow> real \<times> 's" where
  "uniform R a b s = (let (u, s') = rng_random R s in (fadd a (fmul (fsub b a) u), s'))"

section \<open>datetime\<close>

text \<open>
  A naive \<^verbatim>\<open>datetime\<close> is its proleptic Gregorian ordinal (day 1 is 0001-01-01) and
  the microsecond within that day. Subtracting \<^verbatim>\<open>timedelta(days=n)\<close> moves the ordinal
  and keeps the time of day. \<open>ord2ym\<close> is the year and month computed by
  \<^verbatim>\<open>_ord2ymd\<close> of \<^verbatim>\<open>datetime.py\<close>, and \<open>strftime_Ym\<close> formats them as
  \<^verbatim>\<open>strftime('%Y-%m')\<close> does for a four-digit year.
\<close>

record datetime =
  ordinal :: int
  microsecond_of_day :: nat

definition sub_days :: "datetime \<Rightarrow> int \<Rightarrow> datetime" where
  "sub_days d n = d\<lparr>ordinal := ordinal d - n\<rparr>"

definition days_before_month :: "int \<Rightarrow> int" where
  "days_before_month m = [0, 0, 31, 59, 90, 120, 151, 181, 212, 243, 273, 304, 334] ! nat m"

definition ord2ym :: "int \<Rightarrow> int \<times> int" where
  "ord2ym n0 =
     (let n = n0 - 1;
          n400 = n div 146097; n = n mod 146097;
          n100 = n div 36524; n = n mod 36524;
          n4 = n div 1461; n = n mod 1461;
          n1 = n div 365; n = n mod 365;
          year = n400 * 400 + 1 + (n100 * 100 + n4 * 4 + n1)
      in if n1 = 4 \<or> n100 = 4 then (year - 1, 12)
         else (let leapyear = (n1 = 3 \<and> (n4 \<noteq> 24 \<or> n100 = 3));
                   month = (n + 50) div 32;
                   preceding = days_before_month month + (if 2 < month \<and> leapyear then 1 else 0)
               in if n < preceding then (year, month - 1) else (year, month)))"

fun digits :: "nat \<Rightarrow> string" where
  "digits n = (if n < 10 then [''0123456789'' ! n]
               else digits (n div 10) @ [''0123456789'' ! (n mod 10)])"

definition strftime_Ym :: "datetime \<Rightarrow> string" where
  "strftime_Ym d =
     (let (year, month) = ord2ym (ordinal d) in
      digits (nat year) @ ''-'' @ (if month < 10 then ''0'' else []) @ digits (nat month))"

section \<open>The generator\<close>

text \<open>
  The two dictionaries of the source are association lists in insertion order (the order
  \<^verbatim>\<open>list(d.keys())\<close> returns); \<open>getitem\<close> is \<^verbatim>\<open>d[k]\<close>. An association
  list stands for a dictionary when its keys are distinct, as those of the two tables
  of the source are.
\<close>

record city_profile =
  base_price_per_sqft :: int
  price_variation :: real
  avg_area_multiplier :: real

record type_profile =
  min_area :: int
  max_area :: int

record property =
  city :: string
  property_type :: string
  area_sqft :: int
  price_lakhs :: real
  price_per_sqft :: int
  property_age_years :: int
  floor_number :: int
  total_floors :: int
  location_score :: int
  listing_date :: datetime
  month_listed :: string

definition getitem :: "('k \<times> 'v) list \<Rightarrow> 'k \<Rightarrow> error + 'v" where
  "getitem d k = (case map_of d k of None \<Rightarrow> Inl KeyError | Some v \<Rightarrow> Inr v)"

definition cities_info :: "(string \<times> city_profile) list" where
  "cities_info =
     [(''Mumbai'', \<lparr>base_price_per_sqft = 15000, price_variation = fl (4 / 10),
                   avg_area_multiplier = fl (8 / 10)\<rparr>),
      (''Delhi'', \<lparr>base_price_per_sqft = 12000, price_variation = fl (3 / 10),
                  avg_area_multiplier = fl 1\<rparr>),
      (''Bangalore'', \<lparr>base_price_per_sqft = 8000, price_variation = fl (5 / 10),
                      avg_area_multiplier = fl (12 / 10)\<rparr>),
      (''Chennai'', \<lparr>base_price_per_sqft = 7000, price_variation = fl (3 / 10),
                    avg_area_multiplier = fl (11 / 10)\<rparr>),
      (''Pune'', \<lparr>base_price_per_sqft = 7500, price_variation = fl (4 / 10),
                 avg_area_multiplier = fl (11 / 10)\<rparr>),
      (''Hyderabad'', \<lparr>base_price_per_sqft = 6500, price_variation = fl (5 / 10),
                      avg_area_multiplier = fl (13 / 10)\<rparr>)]"

definition property_types :: "(string \<times> type_profile) list" where
  "property_types =
     [(''1BHK'', \<lparr>min_area = 400, max_area = 600\<rparr>),
      (''2BHK'', \<lparr>min_area = 600, max_area = 900\<rparr>),
      (''3BHK'', \<lparr>min_area = 900, max_area = 1400\<rparr>),
      (''4BHK'', \<lparr>min_area = 1400, max_area = 2000\<rparr>)]"

text \<open>
  The price computation of the loop body (source lines 87 and 98 to 101, and the
  \<^verbatim>\<open>round\<close> of line 111).
\<close>

definition location_bonus :: "int \<Rightarrow> real" where
  "location_bonus score = fadd 1 (fmul (float_of_int (score - 5)) (fl (2 / 100)))"

definition age_penalty :: "int \<Rightarrow> real" where
  "age_penalty age = fsub 1 (fmul (float_of_int age) (fl (1 / 100)))"

text \<open>
  One iteration of the loop body: the draws in source order, with the state of the random
  source threaded through them. \<open>now\<close> is what \<^verbatim>\<open>datetime.now()\<close> returns in this
  iteration. The two tables are parameters of the body; the source binds them to
  \<open>cities_info\<close> and \<open>property_types\<close>.
\<close>

definition one_property ::
  "'s source \<Rightarrow> (string \<times> city_profile) list \<Rightarrow> (string \<times> type_profile) list \<Rightarrow>
   datetime \<Rightarrow> 's \<Rightarrow> error + (property \<times> 's)" where
  "one_property R cities types now s0 =
     bind (choice R (map fst cities) s0) (\<lambda>(city', s1).
     bind (choice R (map fst types) s1) (\<lambda>(prop_type, s2).
     bind (getitem cities city') (\<lambda>city_data.
     bind (getitem types prop_type) (\<lambda>prop_data.
     bind (randint R (min_area prop_data) (max_area prop_data) s2) (\<lambda>(base_area, s3).
       let area = trunc (fmul (float_of_int base_area) (avg_area_multiplier city_data));
           base_price = base_price_per_sqft city_data;
           (variation, s4) = uniform R (fsub 1 (price_variation city_data))
                                       (fadd 1 (price_variation city_data)) s3;
           price_per_sqft' = trunc (fmul (float_of_int base_price) variation);
           total_price_lakhs = int_truediv (price_per_sqft' * area) 100000
       in
     bind (randint R 0 25 s4) (\<lambda>(property_age, s5).
     bind (randint R 1 20 s5) (\<lambda>(floor_number', s6).
     bind (randint R floor_number' 25 s6) (\<lambda>(total_floors', s7).
     bind (randint R 1 10 s7) (\<lambda>(location_score', s8).
       let final_price = fmul (fmul total_price_lakhs (location_bonus location_score'))
                              (age_penalty property_age)
       in
     bind (randint R 1 730 s8) (\<lambda>(days_ago, s9).
       let listing_date' = sub_days now days_ago
       in Inr (\<lparr>city = city',
                property_type = prop_type,
                area_sqft = area,
                price_lakhs = round2 final_price,
                price_per_sqft = price_per_sqft',
                property_age_years = property_age,
                floor_number = floor_number',
                total_floors = total_floors',
                location_score = location_score',
                listing_date = listing_date',
                month_listed = strftime_Ym listing_date'\<rparr>, s9)))))))))))"

text \<open>
  The loop \<^verbatim>\<open>for i in range(num_properties)\<close>: \<open>k\<close> iterations remain, \<open>i\<close> is the
  index of the next one, \<open>properties\<close> the list built so far. \<open>clock i\<close> is the reading of
  \<^verbatim>\<open>datetime.now()\<close> in iteration \<open>i\<close>. An exception leaves the loop at once.
\<close>

fun generate_loop ::
  "'s source \<Rightarrow> (string \<times> city_profile) list \<Rightarrow> (string \<times> type_profile) list \<Rightarrow>
   (nat \<Rightarrow> datetime) \<Rightarrow> nat \<Rightarrow> nat \<Rightarrow> property list \<Rightarrow> 's \<Rightarrow> error + (property list \<times> 's)" where
  "generate_loop R cities types clock i 0 properties s = Inr (properties, s)"
| "generate_loop R cities types clock i (Suc k) properties s =
     (case one_property R cities types (clock i) s of
        Inl e \<Rightarrow> Inl e
      | Inr (p, s') \<Rightarrow> generate_loop R cities types clock (Suc i) k (properties @ [p]) s')"

text \<open>
  \<^verbatim>\<open>range(n)\<close> is empty for \<open>n \<le> 0\<close>, so the loop runs \<open>nat n\<close> times. The result is
  the list of rows of the returned data frame, in order, and the state in which the call
  leaves the random source.
\<close>

definition generate ::
  "'s source \<Rightarrow> (string \<times> city_profile) list \<Rightarrow> (string \<times> type_profile) list \<Rightarrow>
   int \<Rightarrow> (nat \<Rightarrow> datetime) \<Rightarrow> 's \<Rightarrow> error + (property list \<times> 's)" where
  "generate R cities types num_properties clock s =
     generate_loop R cities types clock 0 (nat num_properties) [] s"

definition create_realistic_property_data ::
  "'s source \<Rightarrow> int \<Rightarrow> (nat \<Rightarrow> datetime) \<Rightarrow> 's \<Rightarrow> error + (property list \<times> 's)" where
  "create_realistic_property_data R num_properties clock s =
     generate R cities_info property_types num_properties clock s"

text \<open>
  The price formula of the specification (steps 7 and 11 to 13), as a function of the four
  stored fields it names, with the arithmetic read as Python float arithmetic.
\<close>

definition spec_total_price :: "int \<Rightarrow> int \<Rightarrow> int \<Rightarrow> int \<Rightarrow> real" where
  "spec_total_price pricePerAreaUnit areaUnits locationScore ageYears =
     (let rawTotal = int_truediv (pricePerAreaUnit * areaUnits) 100000;
          locationBonus = fadd 1 (fmul (float_of_int (locationScore - 5)) (fl (2 / 100)));
          agePenalty = fsub 1 (fmul (float_of_int ageYears) (fl (1 / 100)))
      in round2 (fmul (fmul rawTotal locationBonus) agePenalty))"

text \<open>
  What the library guarantees of the two primitives: \<^verbatim>\<open>_randbelow(n)\<close> is below \<open>n\<close>
  for positive \<open>n\<close>, and \<^verbatim>\<open>random()\<close> lies in \<open>[0, 1)\<close>.
\<close>

definition source_ok :: "'s source \<Rightarrow> bool" where
  "source_ok R \<longleftrightarrow>
     (\<forall>n s. 0 < n \<longrightarrow> fst (rng_randbelow R n s) < n) \<and>
     (\<forall>s. 0 \<le> fst (rng_random R s) \<and> fst (rng_random R s) < 1)"

text \<open>
  The fields of a record other than \<open>listing_date\<close> and \<open>month_listed\<close>.
\<close>

definition undated ::
  "property \<Rightarrow> string \<times> string \<times> int \<times> real \<times> int \<times> int \<times> int \<times> int \<times> int" where
  "undated p = (city p, property_type p, area_sqft p, price_lakhs p, price_per_sqft p,
                property_age_years p, floor_number p, total_floors p, location_score p)"

text \<open>
  A small random source for running the model on concrete inputs: its state counts the
  draws made so far, and each draw is a fixed function of that count.
\<close>

definition counter_source :: "nat source" where
  "counter_source =
     \<lparr>rng_randbelow = (\<lambda>n s. ((7 * s + 3) mod n, Suc s)),
      rng_random = (\<lambda>s. (real (s mod 4) / 4, Suc s))\<rparr>"

text \<open>A clock that reads midnight of the same day in every iteration.\<close>

definition fixed_clock :: "int \<Rightarrow> nat \<Rightarrow> datetime" where
  "fixed_clock day i = \<lparr>ordinal = day, microsecond_of_day = 0\<rparr>"

text \<open>
  The record the generator produces from \<open>counter_source\<close> in state \<open>9\<close> when the
  clock reads midnight of day \<open>738000\<close> (2021-07-29).
\<close>

definition sample_property :: property where
  "sample_property =
     \<lparr>city = ''Mumbai'', property_type = ''2BHK'', area_sqft = 544,
      price_lakhs = 2951968818253005 / 70368744177664,
      price_per_sqft = 9000, property_age_years = 16, floor_number = 2,
      total_floors = 14, location_score = 6,
      listing_date = \<lparr>ordinal = 737877, microsecond_of_day = 0\<rparr>,
      month_listed = ''2021-03''\<rparr>"


section \<open>Rounding to the nearest float is monotone\<close>

text \<open>
  The exponent brackets its argument between two consecutive powers of two, rounding to
  the nearest integer is monotone and odd, and so \<open>fl\<close> is monotone: the one fact about
  float arithmetic that the bounds on areas and prices need, next to the evaluation of
  \<open>fl\<close> at the end points.
\<close>

lemma expo_bounds:
  assumes "x \<noteq> 0"
  shows "2 powi (expo x) \<le> \<bar>x\<bar>" and "\<bar>x\<bar> < 2 powi (expo x + 1)"
proof -
  have "2 powi (expo x) \<le> \<bar>x\<bar> \<and> \<bar>x\<bar> < 2 powi (expo x + 1)"
  proof (cases "1 \<le> \<bar>x\<bar>")
    case True
    define n where "n = nat \<lfloor>\<bar>x\<bar>\<rfloor>"
    define k where "k = floorlog 2 n"
    have n1: "1 \<le> n" using True by (simp add: n_def le_nat_iff)
    have nle: "real n \<le> \<bar>x\<bar>" using True by (simp add: n_def)
    have nlt: "\<bar>x\<bar> < real n + 1" using True by (simp add: n_def)
    have b: "2 ^ (k - 1) \<le> n" "n < 2 ^ k"
      using floorlog_bounds [of n 2] n1 by (simp_all add: k_def)
    have k1: "1 \<le> k" using b n1 by (cases k) auto
    have e: "expo x = int k - 1" using True by (simp add: expo_def n_def k_def)
    have p1: "(2::real) powi (int k - 1) = 2 ^ (k - 1)"
      using k1 by (simp add: power_int_def nat_diff_distrib')
    have p2: "(2::real) powi (int k - 1 + 1) = 2 ^ k"
      by (simp add: power_int_def)
    have "real (2 ^ (k - 1)) \<le> real n" using b(1) by (rule of_nat_mono)
    then have "(2::real) ^ (k - 1) \<le> real n"
      by (simp only: of_nat_power of_nat_numeral)
    then have l: "(2::real) ^ (k - 1) \<le> \<bar>x\<bar>" using nle by linarith
    have "n + 1 \<le> 2 ^ k" using b(2) by simp
    then have "real (n + 1) \<le> real (2 ^ k)" by (rule of_nat_mono)
    then have "real n + 1 \<le> (2::real) ^ k"
      by (simp only: of_nat_power of_nat_numeral of_nat_add of_nat_1)
    then have u: "\<bar>x\<bar> < (2::real) ^ k" using nlt by linarith
    show ?thesis unfolding e p1 p2 using l u by blast
  next
    case False
    define y where "y = 1 / \<bar>x\<bar>"
    define m where "m = nat (\<lceil>y\<rceil> - 1)"
    define k where "k = floorlog 2 m"
    have xpos: "0 < \<bar>x\<bar>" using assms by simp
    have y1: "1 < y" using False xpos by (simp add: y_def)
    have c2: "2 \<le> \<lceil>y\<rceil>" using y1 by (simp add: le_ceiling_iff) 
    have m1: "1 \<le> m" using c2 by (simp add: m_def le_nat_iff)
    have mlt: "real m < y" using c2 by (simp add: m_def; linarith)
    have mge: "y \<le> real m + 1" using c2 by (simp add: m_def; linarith)
    have b: "2 ^ (k - 1) \<le> m" "m < 2 ^ k"
      using floorlog_bounds [of m 2] m1 by (simp_all add: k_def)
    have e: "expo x = - int k" using False by (simp add: expo_def m_def k_def y_def)
    have "real (2 ^ (k - 1)) \<le> real m" using b(1) by (rule of_nat_mono)
    then have "(2::real) ^ (k - 1) \<le> real m"
      by (simp only: of_nat_power of_nat_numeral)
    then have l: "(2::real) ^ (k - 1) < y" using mlt by linarith
    have "m + 1 \<le> 2 ^ k" using b(2) by simp
    then have "real (m + 1) \<le> real (2 ^ k)" by (rule of_nat_mono)
    then have "real m + 1 \<le> (2::real) ^ k"
      by (simp only: of_nat_power of_nat_numeral of_nat_add of_nat_1)
    then have u: "y \<le> (2::real) ^ k" using mge by linarith
    have k1: "1 \<le> k" using b m1 by (cases k) auto
    have p1: "(2::real) powi (- int k) = 1 / 2 ^ k"
      by (simp add: power_int_minus inverse_eq_divide)
    have "- int k + 1 = - int (k - 1)" using k1 by simp
    then have p2: "(2::real) powi (- int k + 1) = 1 / 2 ^ (k - 1)"
      by (simp only: power_int_minus power_int_of_nat inverse_eq_divide)
    have x: "\<bar>x\<bar> = 1 / y" by (simp add: y_def)
    have ypos: "0 < y" using y1 by simp
    have "1 / 2 ^ k \<le> 1 / y" using u ypos by (simp add: frac_le)
    moreover have "1 / y < 1 / 2 ^ (k - 1)" using l by (simp add: frac_less2)
    ultimately show ?thesis unfolding e p1 p2 x by blast
  qed
  then show "2 powi (expo x) \<le> \<bar>x\<bar>" and "\<bar>x\<bar> < 2 powi (expo x + 1)" by simp_all
qed

lemma rhe_of_int: "rhe (of_int n) = n"
  by (simp add: rhe_def)

lemma rhe_lower: "\<lfloor>x\<rfloor> \<le> rhe x"
  by (simp add: rhe_def Let_def)

lemma rhe_upper: "rhe x \<le> \<lceil>x\<rceil>"
proof (cases "x = of_int \<lfloor>x\<rfloor>")
  case True
  then have "rhe x = \<lfloor>x\<rfloor>" by (simp add: rhe_def Let_def)
  then show ?thesis by (simp add: floor_le_ceiling)
next
  case False
  then have "\<lceil>x\<rceil> = \<lfloor>x\<rfloor> + 1"
    by (metis ceiling_altdef)
  then show ?thesis by (simp add: rhe_def Let_def)
qed

lemma rhe_mono:
  assumes "x \<le> y"
  shows "rhe x \<le> rhe y"
proof (cases "\<lfloor>x\<rfloor> = \<lfloor>y\<rfloor>")
  case True
  have "x - of_int \<lfloor>y\<rfloor> \<le> y - of_int \<lfloor>y\<rfloor>" using assms by simp
  then show ?thesis unfolding rhe_def Let_def True by auto
next
  case False
  have "\<lfloor>x\<rfloor> \<le> \<lfloor>y\<rfloor>" using assms by (rule floor_mono)
  then have lt: "\<lfloor>x\<rfloor> < \<lfloor>y\<rfloor>" using False by simp
  then have "x \<le> of_int \<lfloor>y\<rfloor>"
    by (metis floor_less_cancel less_eq_real_def not_less of_int_floor_le order_trans floor_of_int)
  then have "\<lceil>x\<rceil> \<le> \<lfloor>y\<rfloor>" by (simp add: ceiling_le_iff)
  then show ?thesis using rhe_upper [of x] rhe_lower [of y] by linarith
qed

lemma rhe_minus: "rhe (- x) = - rhe x"
proof (cases "x = of_int \<lfloor>x\<rfloor>")
  case True
  then obtain n where "x = of_int n" ..
  then show ?thesis using rhe_of_int [of "- n"] by (simp add: rhe_of_int)
next
  case False
  then have c: "\<lceil>x\<rceil> = \<lfloor>x\<rfloor> + 1" by (metis ceiling_altdef)
  have f: "\<lfloor>- x\<rfloor> = - \<lfloor>x\<rfloor> - 1" using c by (simp add: floor_minus)
  show ?thesis unfolding rhe_def Let_def f by auto
qed

lemma trunc_mono:
  assumes "x \<le> y"
  shows "trunc x \<le> trunc y"
proof -
  consider "0 \<le> x" | "x < 0" "0 \<le> y" | "y < 0" by linarith
  then show ?thesis
  proof cases
    case 1
    then show ?thesis using assms by (simp add: trunc_def floor_mono)
  next
    case 2
    have "\<lceil>x\<rceil> \<le> 0" using 2 by (simp add: ceiling_le_iff)
    moreover have "0 \<le> \<lfloor>y\<rfloor>" using 2 by simp
    ultimately have "\<lceil>x\<rceil> \<le> \<lfloor>y\<rfloor>" by linarith
    then show ?thesis using 2 by (simp add: trunc_def)
  next
    case 3
    then show ?thesis using assms by (simp add: trunc_def ceiling_mono)
  qed
qed

lemma pow2_pos: "0 < (2::real) powi e"
  by (simp add: zero_less_power_int)

lemma fl_minus: "fl (- x) = - fl x"
  by (simp add: fl_def expo_def Let_def rhe_minus)

lemma fl_bounds:
  assumes "0 < x"
  shows "2 powi (expo x) \<le> fl x" and "fl x \<le> 2 powi (expo x + 1)"
proof -
  define q :: real where "q = 2 powi (expo x - 52)"
  have q: "0 < q" by (simp add: q_def pow2_pos)
  have x0: "x \<noteq> 0" using assms by simp
  have lo: "2 powi (expo x) \<le> x" and hi: "x < 2 powi (expo x + 1)"
    using expo_bounds [OF x0] assms by simp_all
  have s1: "(2::real) powi (expo x) = 2 ^ 52 * q"
    by (simp add: q_def power_int_diff)
  have s2: "(2::real) powi (expo x + 1) = 2 ^ 53 * q"
    by (simp add: q_def power_int_diff power_int_add)
  have "of_int (2 ^ 52) \<le> x / q" using lo q by (simp add: s1 pos_le_divide_eq)
  then have "rhe (of_int (2 ^ 52)) \<le> rhe (x / q)" by (rule rhe_mono)
  then have a: "2 ^ 52 \<le> rhe (x / q)" by (simp only: rhe_of_int)
  have "x / q \<le> of_int (2 ^ 53)" using hi q by (simp add: s2 pos_divide_le_eq)
  then have "rhe (x / q) \<le> rhe (of_int (2 ^ 53))" by (rule rhe_mono)
  then have b: "rhe (x / q) \<le> 2 ^ 53" by (simp only: rhe_of_int)
  have f: "fl x = of_int (rhe (x / q)) * q" using x0 by (simp add: fl_def q_def Let_def)
  have "(2::real) ^ 52 \<le> of_int (rhe (x / q))" using a by (metis of_int_le_iff of_int_numeral of_int_power)
  then have "2 ^ 52 * q \<le> of_int (rhe (x / q)) * q" using q by simp
  then show "2 powi (expo x) \<le> fl x" by (simp only: s1 f)
  have "of_int (rhe (x / q)) \<le> (2::real) ^ 53" using b by (metis of_int_le_iff of_int_numeral of_int_power)
  then have "of_int (rhe (x / q)) * q \<le> 2 ^ 53 * q" using q by simp
  then show "fl x \<le> 2 powi (expo x + 1)" by (simp only: s2 f)
qed

lemma fl_zero: "fl 0 = 0"
  by (simp add: fl_def)

lemma fl_nonneg:
  assumes "0 \<le> x"
  shows "0 \<le> fl x"
proof (cases "x = 0")
  case True
  then show ?thesis by (simp add: fl_zero)
next
  case False
  then have "0 < x" using assms by simp
  then have "2 powi (expo x) \<le> fl x" by (rule fl_bounds)
  then show ?thesis using pow2_pos [of "expo x"] by linarith
qed

lemma fl_mono_pos:
  assumes "0 < x" "x \<le> y"
  shows "fl x \<le> fl y"
proof -
  have y: "0 < y" using assms by simp
  have "2 powi (expo x) \<le> x" using expo_bounds(1) [of x] assms by simp
  moreover have "y < 2 powi (expo y + 1)" using expo_bounds(2) [of y] y by simp
  ultimately have "(2::real) powi (expo x) < 2 powi (expo y + 1)" using assms by linarith
  then have "expo x < expo y + 1"
    using power_int_increasing [of "expo y + 1" "expo x" "2::real"] by fastforce
  then consider "expo x = expo y" | "expo x + 1 \<le> expo y" by linarith
  then show ?thesis
  proof cases
    case 1
    define q :: real where "q = 2 powi (expo x - 52)"
    have q: "0 < q" by (simp add: q_def pow2_pos)
    have "x / q \<le> y / q" using assms q by (simp add: divide_right_mono)
    then have "rhe (x / q) \<le> rhe (y / q)" by (rule rhe_mono)
    then have "of_int (rhe (x / q)) * q \<le> of_int (rhe (y / q)) * q" using q by simp
    then show ?thesis using assms y 1 by (simp add: fl_def Let_def q_def)
  next
    case 2
    have "fl x \<le> 2 powi (expo x + 1)" using assms by (simp add: fl_bounds)
    also have "\<dots> \<le> 2 powi (expo y)" using 2 by (simp add: power_int_increasing)
    also have "\<dots> \<le> fl y" using y by (simp add: fl_bounds)
    finally show ?thesis .
  qed
qed

lemma fl_mono:
  assumes "x \<le> y"
  shows "fl x \<le> fl y"
proof -
  consider "0 < x" | "x \<le> 0" "0 \<le> y" | "y < 0" by linarith
  then show ?thesis
  proof cases
    case 1
    then show ?thesis using assms by (rule fl_mono_pos)
  next
    case 2
    have "0 \<le> fl (- x)" using 2 by (simp add: fl_nonneg)
    then have "fl x \<le> 0" by (simp add: fl_minus)
    also have "0 \<le> fl y" using 2 by (simp add: fl_nonneg)
    finally show ?thesis .
  next
    case 3
    have "fl (- y) \<le> fl (- x)" using 3 assms by (intro fl_mono_pos) simp_all
    then show ?thesis by (simp add: fl_minus)
  qed
qed

text \<open>
  The rounded value lies within half a unit in the last place of the exact one.
\<close>

lemma rhe_error: "\<bar>of_int (rhe x) - x\<bar> \<le> 1 / 2"
  unfolding rhe_def Let_def by (auto simp: abs_le_iff; linarith)

lemma fl_nearest:
  assumes "x \<noteq> 0"
  shows "\<bar>fl x - x\<bar> \<le> 2 powi (expo x - 52) / 2"
proof -
  define q :: real where "q = 2 powi (expo x - 52)"
  have q: "0 < q" by (simp add: q_def pow2_pos)
  have "fl x - x = (of_int (rhe (x / q)) - x / q) * q"
    using assms q by (simp add: fl_def q_def Let_def algebra_simps)
  then have "\<bar>fl x - x\<bar> = \<bar>of_int (rhe (x / q)) - x / q\<bar> * q"
    using q by (simp add: abs_mult)
  also have "\<dots> \<le> (1 / 2) * q" using rhe_error [of "x / q"] q by (intro mult_right_mono) simp_all
  finally show ?thesis by (simp add: q_def)
qed

section \<open>The library calls\<close>

text \<open>
  What each draw returns when it succeeds, and when it succeeds.
\<close>

lemma bind_Inr: "bind m f = Inr y \<longleftrightarrow> (\<exists>x. m = Inr x \<and> f x = Inr y)"
  by (cases m) (simp_all add: bind_def)

lemma bind_simps: "bind (Inr x) f = f x" "bind (Inl e) f = Inl e"
  by (simp_all add: bind_def)

lemma randint_bounds:
  assumes "source_ok R" "randint R a b s = Inr (x, s')"
  shows "a \<le> x" and "x \<le> b"
proof -
  have w: "0 < b + 1 - a" using assms(2) by (simp add: randint_def Let_def split: if_splits)
  obtain r t where rt: "rng_randbelow R (nat (b + 1 - a)) s = (r, t)" by fastforce
  have "r < nat (b + 1 - a)" using assms(1) w rt
    by (metis fst_conv source_ok_def zero_less_nat_eq)
  moreover have "x = a + int r" using assms(2) w rt by (simp add: randint_def Let_def)
  ultimately show "a \<le> x" and "x \<le> b" by simp_all
qed

lemma randint_total:
  assumes "a \<le> b"
  shows "\<exists>x s'. randint R a b s = Inr (x, s')"
  using assms by (simp add: randint_def Let_def split: prod.splits)

lemma choice_Inr:
  assumes "choice R seq s = Inr (x, s')"
  shows "x \<in> set seq"
  using assms by (auto simp: choice_def Let_def split: if_splits prod.splits)

lemma choice_total:
  assumes "source_ok R" "seq \<noteq> []"
  shows "\<exists>x s'. choice R seq s = Inr (x, s')"
proof -
  obtain i t where it: "rng_randbelow R (length seq) s = (i, t)" by fastforce
  have "i < length seq" using assms it by (metis fst_conv length_greater_0_conv source_ok_def)
  then show ?thesis using assms it by (simp add: choice_def)
qed

lemma getitem_Inr: "getitem d k = Inr v \<longleftrightarrow> map_of d k = Some v"
  by (simp add: getitem_def split: option.splits)

lemma getitem_total: "k \<in> set (map fst d) \<Longrightarrow> \<exists>v. getitem d k = Inr v"
  by (cases "map_of d k") (auto simp: getitem_def map_of_eq_None_iff)

section \<open>One iteration\<close>

text \<open>
  Every record the loop body returns is built from a city and a type of the two tables
  and from the draws, in the way \<open>one_property_Inr\<close> spells out; with a source that keeps
  to its ranges and tables that are not empty and give non-empty area ranges, the body
  returns a record.
\<close>

lemma one_property_Inr:
  assumes "one_property R cities types now s0 = Inr (p, s')"
  shows "\<exists>cd td base_area variation days_ago s2 s3 s4 s5 s6 s7 s8.
     map_of cities (city p) = Some cd \<and>
     map_of types (property_type p) = Some td \<and>
     randint R (min_area td) (max_area td) s2 = Inr (base_area, s3) \<and>
     area_sqft p = trunc (fmul (float_of_int base_area) (avg_area_multiplier cd)) \<and>
     uniform R (fsub 1 (price_variation cd)) (fadd 1 (price_variation cd)) s3 = (variation, s4) \<and>
     price_per_sqft p = trunc (fmul (float_of_int (base_price_per_sqft cd)) variation) \<and>
     randint R 0 25 s4 = Inr (property_age_years p, s5) \<and>
     randint R 1 20 s5 = Inr (floor_number p, s6) \<and>
     randint R (floor_number p) 25 s6 = Inr (total_floors p, s7) \<and>
     randint R 1 10 s7 = Inr (location_score p, s8) \<and>
     randint R 1 730 s8 = Inr (days_ago, s') \<and>
     price_lakhs p = round2 (fmul (fmul (int_truediv (price_per_sqft p * area_sqft p) 100000)
                       (location_bonus (location_score p))) (age_penalty (property_age_years p))) \<and>
     listing_date p = sub_days now days_ago \<and>
     month_listed p = strftime_Ym (listing_date p)"
  using assms
  apply (clarsimp simp: one_property_def bind_Inr Let_def getitem_Inr split: prod.splits)
  subgoal for a b aa ba x xa ab bb
    apply (cases "uniform R (fsub 1 (price_variation x)) (fadd 1 (price_variation x)) bb")
    apply fastforce
    done
  done

lemma one_property_total:
  assumes ok: "source_ok R" and c: "cities \<noteq> []" and t: "types \<noteq> []"
    and ranges: "\<And>k td. (k, td) \<in> set types \<Longrightarrow> min_area td \<le> max_area td"
  shows "\<exists>p s'. one_property R cities types now s0 = Inr (p, s')"
proof -
  obtain city' s1 where 1: "choice R (map fst cities) s0 = Inr (city', s1)"
    using choice_total [OF ok, of "map fst cities" s0] c by auto
  obtain prop_type s2 where 2: "choice R (map fst types) s1 = Inr (prop_type, s2)"
    using choice_total [OF ok, of "map fst types" s1] t by auto
  obtain cd where 3: "getitem cities city' = Inr cd"
    using getitem_total [OF choice_Inr [OF 1]] by auto
  obtain td where 4: "getitem types prop_type = Inr td"
    using getitem_total [OF choice_Inr [OF 2]] by auto
  have "(prop_type, td) \<in> set types"
    using 4 by (simp add: getitem_Inr map_of_SomeD)
  then have "min_area td \<le> max_area td" by (rule ranges)
  then obtain base_area s3 where 5: "randint R (min_area td) (max_area td) s2 = Inr (base_area, s3)"
    using randint_total [of "min_area td" "max_area td" R s2] by auto
  obtain variation s4 where
    6: "uniform R (fsub 1 (price_variation cd)) (fadd 1 (price_variation cd)) s3 = (variation, s4)"
    by fastforce
  obtain age s5 where 7: "randint R 0 25 s4 = Inr (age, s5)"
    using randint_total [of 0 25 R s4] by auto
  obtain fn s6 where 8: "randint R 1 20 s5 = Inr (fn, s6)"
    using randint_total [of 1 20 R s5] by auto
  have "fn \<le> 20" using randint_bounds(2) [OF ok 8] .
  then obtain tf s7 where 9: "randint R fn 25 s6 = Inr (tf, s7)"
    using randint_total [of fn 25 R s6] by auto
  obtain ls s8 where 10: "randint R 1 10 s7 = Inr (ls, s8)"
    using randint_total [of 1 10 R s7] by auto
  obtain d s9 where 11: "randint R 1 730 s8 = Inr (d, s9)"
    using randint_total [of 1 730 R s8] by auto
  show ?thesis
    by (simp add: one_property_def bind_simps 1 2 3 4 5 6 7 8 9 10 11 Let_def)
qed

lemma one_property_bounds:
  assumes ok: "source_ok R" and step: "one_property R cities types now t = Inr (q, t')"
  shows "1 \<le> location_score q \<and> location_score q \<le> 10 \<and>
         0 \<le> property_age_years q \<and> property_age_years q \<le> 25 \<and>
         1 \<le> floor_number q \<and> floor_number q \<le> 20 \<and>
         floor_number q \<le> total_floors q \<and> total_floors q \<le> 25"
proof -
  from one_property_Inr [OF step] obtain s4 s5 s6 s7 s8 where
    a: "randint R 0 25 s4 = Inr (property_age_years q, s5)" and
    f: "randint R 1 20 s5 = Inr (floor_number q, s6)" and
    t: "randint R (floor_number q) 25 s6 = Inr (total_floors q, s7)" and
    l: "randint R 1 10 s7 = Inr (location_score q, s8)"
    by blast
  show ?thesis
    using randint_bounds [OF ok a] randint_bounds [OF ok f] randint_bounds [OF ok t]
      randint_bounds [OF ok l]
    by simp
qed

lemma one_property_undated:
  "map_sum id (apfst undated) (one_property R cities types now1 s) =
   map_sum id (apfst undated) (one_property R cities types now2 s)"
  by (simp add: one_property_def bind_def Let_def undated_def split: sum.splits prod.splits)

section \<open>The loop\<close>

text \<open>
  The loop returns as many records as it runs iterations, what holds of every record of
  the body holds of every record of the result, and the loop returns when the body does.
  The clock enters the result through the two date fields only. The accumulator is a
  prefix of the result, and running \<open>k1 + k2\<close> iterations is running \<open>k1\<close> and then
  \<open>k2\<close> from the state the first run leaves.
\<close>

lemma generate_loop_length:
  "generate_loop R cities types clock i k acc s = Inr (ps, s') \<Longrightarrow> length ps = length acc + k"
  by (induction k arbitrary: i acc s) (auto split: sum.splits)

lemma generate_loop_records:
  assumes step: "\<And>now s p s'. one_property R cities types now s = Inr (p, s') \<Longrightarrow> P p"
  shows "generate_loop R cities types clock i k acc s = Inr (ps, s') \<Longrightarrow>
         (\<forall>p\<in>set acc. P p) \<Longrightarrow> (\<forall>p\<in>set ps. P p)"
proof (induction k arbitrary: i acc s)
  case 0
  then show ?case by simp
next
  case (Suc k)
  from Suc.prems(1) obtain q t where
    q: "one_property R cities types (clock i) s = Inr (q, t)" and
    rest: "generate_loop R cities types clock (Suc i) k (acc @ [q]) t = Inr (ps, s')"
    by (auto split: sum.splits)
  have "P q" using q by (rule step)
  then have "\<forall>p\<in>set (acc @ [q]). P p" using Suc.prems(2) by simp
  with rest show ?case by (rule Suc.IH)
qed

lemma generate_records:
  assumes step: "\<And>now s p s'. one_property R cities types now s = Inr (p, s') \<Longrightarrow> P p"
    and run: "generate R cities types n clock s = Inr (ps, s')" and p: "p \<in> set ps"
  shows "P p"
proof -
  have "\<forall>p\<in>set ps. P p"
    using generate_loop_records [of R cities types P clock 0 "nat n" "[]" s ps s'] step run
    by (simp add: generate_def)
  then show ?thesis using p by simp
qed

lemma generate_loop_total:
  assumes step: "\<And>now s. \<exists>p s'. one_property R cities types now s = Inr (p, s')"
  shows "\<exists>ps s'. generate_loop R cities types clock i k acc s = Inr (ps, s')"
proof (induction k arbitrary: i acc s)
  case 0
  then show ?case by simp
next
  case (Suc k)
  obtain q t where q: "one_property R cities types (clock i) s = Inr (q, t)"
    using step by blast
  then show ?case using Suc.IH [of "Suc i" "acc @ [q]" t] by simp
qed

lemma generate_loop_undated:
  "map undated acc1 = map undated acc2 \<Longrightarrow>
   map_sum id (apfst (map undated)) (generate_loop R cities types clock1 i k acc1 s) =
   map_sum id (apfst (map undated)) (generate_loop R cities types clock2 j k acc2 s)"
proof (induction k arbitrary: i j acc1 acc2 s)
  case 0
  then show ?case by simp
next
  case (Suc k)
  have u: "map_sum id (apfst undated) (one_property R cities types (clock1 i) s) =
           map_sum id (apfst undated) (one_property R cities types (clock2 j) s)"
    by (rule one_property_undated)
  show ?case
  proof (cases "one_property R cities types (clock1 i) s")
    case (Inl e)
    then have "one_property R cities types (clock2 j) s = Inl e"
      using u by (cases "one_property R cities types (clock2 j) s") simp_all
    then show ?thesis using Inl by simp
  next
    case (Inr r)
    obtain p t where r: "r = (p, t)" by (cases r)
    obtain p' t' where r': "one_property R cities types (clock2 j) s = Inr (p', t')"
      using u Inr by (cases "one_property R cities types (clock2 j) s") auto
    have e: "undated p = undated p'" "t = t'" using u Inr r r' by simp_all
    have "map undated (acc1 @ [p]) = map undated (acc2 @ [p'])"
      using Suc.prems e by simp
    then show ?thesis using Suc.IH [of "acc1 @ [p]" "acc2 @ [p']" "Suc i" t "Suc j"] Inr r r' e
      by simp
  qed
qed

lemma generate_loop_clock_cong:
  "(\<And>x. i \<le> x \<Longrightarrow> x < i + k \<Longrightarrow> clock1 x = clock2 x) \<Longrightarrow>
   generate_loop R cities types clock1 i k acc s = generate_loop R cities types clock2 i k acc s"
proof (induction k arbitrary: i acc s)
  case 0
  then show ?case by simp
next
  case (Suc k)
  have h: "clock1 i = clock2 i" using Suc.prems [of i] by simp
  have "generate_loop R cities types clock1 (Suc i) k acc' s' =
        generate_loop R cities types clock2 (Suc i) k acc' s'" for acc' s'
    using Suc.prems by (intro Suc.IH) simp_all
  then show ?case by (simp add: h split: sum.splits)
qed




lemma generate_nonpositive:
  "n \<le> 0 \<Longrightarrow> generate R cities types n clock s = Inr ([], s)"
  by (simp add: generate_def)

section \<open>The shipped tables\<close>

lemma cities_info_nonempty: "cities_info \<noteq> []"
  by (simp add: cities_info_def)

lemma property_types_nonempty: "property_types \<noteq> []"
  by (simp add: property_types_def)

lemma property_types_ranges: "(k, td) \<in> set property_types \<Longrightarrow> min_area td \<le> max_area td"
  by (auto simp: property_types_def)

lemma source_ok_counter: "source_ok counter_source"
  by (simp add: source_ok_def counter_source_def divide_less_eq)

lemma create_records:
  assumes step: "\<And>now s p s'. one_property R cities_info property_types now s = Inr (p, s') \<Longrightarrow> P p"
    and run: "create_realistic_property_data R n clock s = Inr (ps, s')" and p: "p \<in> set ps"
  shows "P p"
proof -
  have "generate R cities_info property_types n clock s = Inr (ps, s')"
    using run by (simp add: create_realistic_property_data_def)
  with step show ?thesis using p by (rule generate_records)
qed

text \<open>
  The generator reads its two tables from its own body, not from its caller: they are the
  six cities and the four types above whatever the argument is. With a random source that
  keeps to its ranges it therefore returns a result for every count, and raises nothing.
\<close>

lemma create_never_raises:
  assumes "source_ok R"
  shows "\<exists>ps s'. create_realistic_property_data R n clock s = Inr (ps, s')"
proof -
  have "\<exists>p s'. one_property R cities_info property_types now t = Inr (p, s')" for now t
    using assms cities_info_nonempty property_types_nonempty property_types_ranges
    by (rule one_property_total)
  then show ?thesis
    unfolding create_realistic_property_data_def generate_def
    by (rule generate_loop_total)
qed

section \<open>Float bounds\<close>

text \<open>
  Closed float expressions are evaluated by unfolding \<open>fl\<close>; bounds on open ones come
  from the monotonicity of \<open>fl\<close> and the evaluation of the end points.
\<close>

lemma float_eval:
  "fl x = (if x = 0 then 0
           else let q = 2 powi (expo x - 52) in of_int (rhe (x / q)) * q)"
  "expo x = (if 1 \<le> \<bar>x\<bar> then int (floorlog 2 (nat \<lfloor>\<bar>x\<bar>\<rfloor>)) - 1
             else - int (floorlog 2 (nat (\<lceil>1 / \<bar>x\<bar>\<rceil> - 1))))"
  "fadd x y = fl (x + y)" "fsub x y = fl (x - y)" "fmul x y = fl (x * y)"
  "float_of_int i = fl (of_int i)" "int_truediv a b = fl (of_int a / of_int b)"
  "round2 x = fl (of_int (rhe (x * 100)) / 100)"
  by (simp_all add: fl_def expo_def fadd_def fsub_def fmul_def float_of_int_def
      int_truediv_def round2_def)

lemma fl_exact: "fl 0 = 0" "fl 1 = 1" "fl (1 / 2) = 1 / 2" "fl (3 / 4) = 3 / 4"
  "fl 6 = 6" "fl 8 = 8" "fl 9 = 9" "fl 300 = 300" "fl 400 = 400" "fl 3250 = 3250" "fl 6500 = 6500"
  by (simp_all add: float_eval compute_floorlog rhe_def Let_def power_int_minus)

lemma area_mono:
  assumes "lo \<le> b" "0 \<le> m"
  shows "trunc (fmul (float_of_int lo) m) \<le> trunc (fmul (float_of_int b) m)"
proof -
  have "float_of_int lo \<le> float_of_int b"
    unfolding float_of_int_def using assms(1) by (intro fl_mono) simp
  then have "float_of_int lo * m \<le> float_of_int b * m"
    using assms(2) by (rule mult_right_mono)
  then show ?thesis unfolding fmul_def by (intro trunc_mono fl_mono)
qed

lemma price_mono:
  assumes "v \<le> w" "0 \<le> base"
  shows "trunc (fmul (float_of_int base) v) \<le> trunc (fmul (float_of_int base) w)"
proof -
  have "0 \<le> float_of_int base"
    unfolding float_of_int_def using assms(2) by (intro fl_nonneg) simp
  then have "float_of_int base * v \<le> float_of_int base * w"
    using assms(1) by (intro mult_left_mono)
  then show ?thesis unfolding fmul_def by (intro trunc_mono fl_mono)
qed

lemma uniform_bounds:
  assumes ok: "source_ok R" and u: "uniform R a b s = (v, s')" and ab: "a \<le> b"
  shows "fl a \<le> v" and "v \<le> fl (a + fl (fsub b a))"
proof -
  obtain x t where x: "rng_random R s = (x, t)" by fastforce
  have x0: "0 \<le> x" and x1: "x < 1"
    using ok x by (metis fst_conv source_ok_def)+
  have v: "v = fl (a + fl (fsub b a * x))"
    using u x by (simp add: uniform_def fadd_def fmul_def)
  have w: "0 \<le> fsub b a" unfolding fsub_def using ab by (intro fl_nonneg) simp
  have "0 \<le> fl (fsub b a * x)" using w x0 by (intro fl_nonneg) simp
  then show "fl a \<le> v" unfolding v by (intro fl_mono) simp
  have "fsub b a * x \<le> fsub b a * 1" using w x1 by (intro mult_left_mono) simp_all
  then have "fl (fsub b a * x) \<le> fl (fsub b a)" by (intro fl_mono) simp
  then show "v \<le> fl (a + fl (fsub b a))" unfolding v by (intro fl_mono) simp
qed

lemma mumbai_area:
  "trunc (fmul (float_of_int 600) (fl (8 / 10))) = 480"
  "trunc (fmul (float_of_int 900) (fl (8 / 10))) = 720"
  by (simp_all add: float_eval compute_floorlog rhe_def trunc_def Let_def power_int_minus)

lemma mumbai_variation:
  "fsub 1 (fl (4 / 10)) \<le> fadd 1 (fl (4 / 10))"
  "0 \<le> fl (8 / 10)"
  by (simp_all add: float_eval compute_floorlog rhe_def trunc_def Let_def power_int_minus)

lemma mumbai_price_lo:
  "trunc (fmul (float_of_int 15000) (fl (fsub 1 (fl (4 / 10))))) = 9000"
  by (simp add: float_eval compute_floorlog rhe_def trunc_def Let_def power_int_minus)

lemma mumbai_price_hi:
  "trunc (fmul (float_of_int 15000)
     (fl (fsub 1 (fl (4 / 10)) + fl (fsub (fadd 1 (fl (4 / 10))) (fsub 1 (fl (4 / 10))))))) = 21000"
  by (simp add: float_eval compute_floorlog rhe_def trunc_def Let_def power_int_minus)

lemma mumbai_2bhk_step:
  assumes ok: "source_ok R"
    and step: "one_property R cities_info property_types now t = Inr (q, t')"
    and c: "city q = ''Mumbai''" and ty: "property_type q = ''2BHK''"
  shows "480 \<le> area_sqft q \<and> area_sqft q \<le> 720 \<and>
         9000 \<le> price_per_sqft q \<and> price_per_sqft q \<le> 21000"
proof -
  from one_property_Inr [OF step] obtain cd td base_area variation s2 s3 s4 where
    cd: "map_of cities_info (city q) = Some cd" and
    td: "map_of property_types (property_type q) = Some td" and
    b: "randint R (min_area td) (max_area td) s2 = Inr (base_area, s3)" and
    a: "area_sqft q = trunc (fmul (float_of_int base_area) (avg_area_multiplier cd))" and
    u: "uniform R (fsub 1 (price_variation cd)) (fadd 1 (price_variation cd)) s3 = (variation, s4)" and
    pr: "price_per_sqft q = trunc (fmul (float_of_int (base_price_per_sqft cd)) variation)"
    by blast
  have cd': "base_price_per_sqft cd = 15000" "price_variation cd = fl (4 / 10)"
    "avg_area_multiplier cd = fl (8 / 10)"
    using cd c by (auto simp: cities_info_def)
  have td': "min_area td = 600" "max_area td = 900"
    using td ty by (auto simp: property_types_def)
  have bb: "600 \<le> base_area" "base_area \<le> 900"
    using randint_bounds [OF ok b] by (simp_all add: td')
  have "trunc (fmul (float_of_int 600) (fl (8 / 10))) \<le> area_sqft q"
    unfolding a cd' using bb(1) mumbai_variation(2) by (rule area_mono)
  moreover have "area_sqft q \<le> trunc (fmul (float_of_int 900) (fl (8 / 10)))"
    unfolding a cd' using bb(2) mumbai_variation(2) by (rule area_mono)
  moreover have "trunc (fmul (float_of_int 15000) (fl (fsub 1 (fl (4 / 10))))) \<le> price_per_sqft q"
    unfolding pr cd'
    using uniform_bounds(1) [OF ok u [unfolded cd'] mumbai_variation(1)]
    by (rule price_mono) simp
  moreover have "price_per_sqft q \<le> trunc (fmul (float_of_int 15000)
     (fl (fsub 1 (fl (4 / 10)) + fl (fsub (fadd 1 (fl (4 / 10))) (fsub 1 (fl (4 / 10)))))))"
    unfolding pr cd'
    using uniform_bounds(2) [OF ok u [unfolded cd'] mumbai_variation(1)]
    by (rule price_mono) simp
  ultimately show ?thesis
    by (simp only: mumbai_area mumbai_price_lo mumbai_price_hi)
qed

lemma location_bonus_mono: "a \<le> b \<Longrightarrow> location_bonus a \<le> location_bonus b"
proof -
  assume ab: "a \<le> b"
  have c: "0 \<le> fl (2 / 100)" by (intro fl_nonneg) simp
  have "float_of_int (a - 5) \<le> float_of_int (b - 5)"
    unfolding float_of_int_def using ab by (intro fl_mono) simp
  then have "float_of_int (a - 5) * fl (2 / 100) \<le> float_of_int (b - 5) * fl (2 / 100)"
    using c by (rule mult_right_mono)
  then have "fmul (float_of_int (a - 5)) (fl (2 / 100)) \<le> fmul (float_of_int (b - 5)) (fl (2 / 100))"
    unfolding fmul_def by (rule fl_mono)
  then show ?thesis unfolding location_bonus_def fadd_def by (intro fl_mono) simp
qed

lemma age_penalty_antimono: "a \<le> b \<Longrightarrow> age_penalty b \<le> age_penalty a"
proof -
  assume ab: "a \<le> b"
  have c: "0 \<le> fl (1 / 100)" by (intro fl_nonneg) simp
  have "float_of_int a \<le> float_of_int b"
    unfolding float_of_int_def using ab by (intro fl_mono) simp
  then have "float_of_int a * fl (1 / 100) \<le> float_of_int b * fl (1 / 100)"
    using c by (rule mult_right_mono)
  then have "fmul (float_of_int a) (fl (1 / 100)) \<le> fmul (float_of_int b) (fl (1 / 100))"
    unfolding fmul_def by (rule fl_mono)
  then show ?thesis unfolding age_penalty_def fsub_def by (intro fl_mono) simp
qed

lemma location_bonus_1: "location_bonus 1 = 8286623314361713 / 9007199254740992"
  by (simp add: location_bonus_def float_eval compute_floorlog rhe_def Let_def power_int_minus)

lemma age_penalty_25: "age_penalty 25 = 3 / 4"
  by (simp add: age_penalty_def float_eval compute_floorlog rhe_def Let_def power_int_minus)

lemma cities_info_ranges:
  assumes "map_of cities_info k = Some cd"
  shows "6500 \<le> base_price_per_sqft cd" "0 \<le> price_variation cd" "price_variation cd \<le> 1 / 2"
    "3 / 4 \<le> avg_area_multiplier cd"
proof -
  have m: "fl (3 / 4) \<le> fl x" if "3 / 4 \<le> x" for x using that by (rule fl_mono)
  have v: "fl x \<le> fl (1 / 2)" if "x \<le> 1 / 2" for x using that by (rule fl_mono)
  have n: "0 \<le> fl x" if "0 \<le> x" for x using that by (rule fl_nonneg)
  have "6500 \<le> base_price_per_sqft cd \<and> 0 \<le> price_variation cd \<and>
        price_variation cd \<le> fl (1 / 2) \<and> fl (3 / 4) \<le> avg_area_multiplier cd"
    using assms by (auto simp: cities_info_def intro!: m v n split: if_splits)
  then show "6500 \<le> base_price_per_sqft cd" "0 \<le> price_variation cd"
    "price_variation cd \<le> 1 / 2" "3 / 4 \<le> avg_area_multiplier cd"
    by (simp_all add: fl_exact)
qed

lemma property_types_min:
  assumes "map_of property_types k = Some td"
  shows "400 \<le> min_area td" "min_area td \<le> max_area td"
  using assms by (auto simp: property_types_def split: if_splits)

lemma fl_ge: "c \<le> x \<Longrightarrow> fl c = c \<Longrightarrow> c \<le> fl x"
  using fl_mono [of c x] by simp

lemma round2_ge_6:
  assumes "6 \<le> x"
  shows "6 \<le> round2 x"
proof -
  have "of_int 600 \<le> x * 100" using assms by simp
  then have "rhe (of_int 600) \<le> rhe (x * 100)" by (rule rhe_mono)
  then have "600 \<le> rhe (x * 100)" by (simp only: rhe_of_int)
  then have "(600::real) \<le> of_int (rhe (x * 100))" by linarith
  then have "6 \<le> real_of_int (rhe (x * 100)) / 100" by simp
  then show ?thesis unfolding round2_def by (rule fl_ge) (rule fl_exact)
qed

lemma positive_price_step:
  assumes ok: "source_ok R"
    and step: "one_property R cities_info property_types now t = Inr (q, t')"
  shows "0 < area_sqft q \<and> 0 < price_per_sqft q \<and>
         92 / 100 \<le> location_bonus (location_score q) \<and>
         3 / 4 \<le> age_penalty (property_age_years q) \<and>
         0 < price_lakhs q"
proof -
  from one_property_Inr [OF step] obtain cd td base_area variation s2 s3 s4 where
    cd: "map_of cities_info (city q) = Some cd" and
    td: "map_of property_types (property_type q) = Some td" and
    b: "randint R (min_area td) (max_area td) s2 = Inr (base_area, s3)" and
    a: "area_sqft q = trunc (fmul (float_of_int base_area) (avg_area_multiplier cd))" and
    u: "uniform R (fsub 1 (price_variation cd)) (fadd 1 (price_variation cd)) s3 = (variation, s4)" and
    pr: "price_per_sqft q = trunc (fmul (float_of_int (base_price_per_sqft cd)) variation)" and
    pl: "price_lakhs q = round2 (fmul (fmul (int_truediv (price_per_sqft q * area_sqft q) 100000)
                       (location_bonus (location_score q))) (age_penalty (property_age_years q)))"
    by blast
  note c = cities_info_ranges [OF cd]
  note ty = property_types_min [OF td]
  have bounds: "1 \<le> location_score q" "property_age_years q \<le> 25"
    using one_property_bounds [OF ok step] by simp_all
  \<comment> \<open>the area is at least 300\<close>
  have "400 \<le> base_area" using randint_bounds(1) [OF ok b] ty(1) by simp
  then have "(400::real) \<le> of_int base_area" by simp
  then have fb: "400 \<le> float_of_int base_area"
    unfolding float_of_int_def by (rule fl_ge) (rule fl_exact)
  have "400 * (3 / 4) \<le> float_of_int base_area * avg_area_multiplier cd"
    using fb c(4) by (intro mult_mono) simp_all
  then have "300 \<le> float_of_int base_area * avg_area_multiplier cd" by simp
  then have "300 \<le> fmul (float_of_int base_area) (avg_area_multiplier cd)"
    unfolding fmul_def by (rule fl_ge) (rule fl_exact)
  then have "trunc 300 \<le> area_sqft q" unfolding a by (rule trunc_mono)
  then have area: "300 \<le> area_sqft q" by (simp add: trunc_def)
  \<comment> \<open>the variation factor is at least one half\<close>
  have "1 / 2 \<le> 1 - price_variation cd" using c(3) by simp
  then have lo: "1 / 2 \<le> fsub 1 (price_variation cd)"
    unfolding fsub_def by (rule fl_ge) (rule fl_exact)
  have "fsub 1 (price_variation cd) \<le> fadd 1 (price_variation cd)"
    unfolding fsub_def fadd_def using c(2) by (intro fl_mono) simp
  then have "fl (fsub 1 (price_variation cd)) \<le> variation"
    by (rule uniform_bounds(1) [OF ok u])
  moreover have "1 / 2 \<le> fl (fsub 1 (price_variation cd))"
    using lo by (rule fl_ge) (rule fl_exact)
  ultimately have v: "1 / 2 \<le> variation" by linarith
  \<comment> \<open>the price per square foot is at least 3250\<close>
  have "(6500::real) \<le> of_int (base_price_per_sqft cd)" using c(1) by simp
  then have fp: "6500 \<le> float_of_int (base_price_per_sqft cd)"
    unfolding float_of_int_def by (rule fl_ge) (rule fl_exact)
  have "6500 * (1 / 2) \<le> float_of_int (base_price_per_sqft cd) * variation"
    using fp v by (intro mult_mono) simp_all
  then have "3250 \<le> float_of_int (base_price_per_sqft cd) * variation" by simp
  then have "3250 \<le> fmul (float_of_int (base_price_per_sqft cd)) variation"
    unfolding fmul_def by (rule fl_ge) (rule fl_exact)
  then have "trunc 3250 \<le> price_per_sqft q" unfolding pr by (rule trunc_mono)
  then have price: "3250 \<le> price_per_sqft q" by (simp add: trunc_def)
  \<comment> \<open>the raw total is at least 9\<close>
  have "3250 * 300 \<le> price_per_sqft q * area_sqft q"
    using price area by (intro mult_mono) simp_all
  then have "975000 \<le> price_per_sqft q * area_sqft q" by simp
  then have "real_of_int 975000 \<le> real_of_int (price_per_sqft q * area_sqft q)"
    by (simp only: of_int_le_iff)
  then have "975000 \<le> real_of_int (price_per_sqft q * area_sqft q)"
    by (simp only: of_int_numeral)
  then have "9 \<le> real_of_int (price_per_sqft q * area_sqft q) / real_of_int 100000"
    by simp
  then have total: "9 \<le> int_truediv (price_per_sqft q * area_sqft q) 100000"
    unfolding int_truediv_def by (rule fl_ge) (rule fl_exact)
  \<comment> \<open>the two factors\<close>
  have "location_bonus 1 \<le> location_bonus (location_score q)"
    using bounds(1) by (rule location_bonus_mono)
  then have lb: "92 / 100 \<le> location_bonus (location_score q)"
    by (simp add: location_bonus_1)
  have "age_penalty 25 \<le> age_penalty (property_age_years q)"
    using bounds(2) by (rule age_penalty_antimono)
  then have ap: "3 / 4 \<le> age_penalty (property_age_years q)"
    by (simp add: age_penalty_25)
  \<comment> \<open>the product is at least 6\<close>
  have "9 * (92 / 100) \<le> int_truediv (price_per_sqft q * area_sqft q) 100000 *
          location_bonus (location_score q)"
    using total lb by (intro mult_mono) simp_all
  then have "8 \<le> int_truediv (price_per_sqft q * area_sqft q) 100000 *
          location_bonus (location_score q)" by simp
  then have p1: "8 \<le> fmul (int_truediv (price_per_sqft q * area_sqft q) 100000)
          (location_bonus (location_score q))"
    unfolding fmul_def by (rule fl_ge) (rule fl_exact)
  have "8 * (3 / 4) \<le> fmul (int_truediv (price_per_sqft q * area_sqft q) 100000)
          (location_bonus (location_score q)) * age_penalty (property_age_years q)"
    using p1 ap by (intro mult_mono) simp_all
  then have "6 \<le> fmul (int_truediv (price_per_sqft q * area_sqft q) 100000)
          (location_bonus (location_score q)) * age_penalty (property_age_years q)" by simp
  then have "6 \<le> fmul (fmul (int_truediv (price_per_sqft q * area_sqft q) 100000)
          (location_bonus (location_score q))) (age_penalty (property_age_years q))"
    unfolding fmul_def by (rule fl_ge) (rule fl_exact)
  then have "6 \<le> price_lakhs q" unfolding pl by (rule round2_ge_6)
  then show ?thesis using area price lb ap by simp
qed

section \<open>A sample run\<close>

lemma sample_step_at:
  "one_property counter_source cities_info property_types now 9 =
     Inr (sample_property\<lparr>listing_date := sub_days now 123,
                          month_listed := strftime_Ym (sub_days now 123)\<rparr>, 18)"
  apply (simp add: one_property_def bind_simps choice_def randint_def uniform_def getitem_def
      counter_source_def cities_info_def property_types_def
      location_bonus_def age_penalty_def sample_property_def Let_def)
  apply (simp add: float_eval compute_floorlog rhe_def trunc_def Let_def power_int_minus)
  done

lemma sample_run:
  "create_realistic_property_data counter_source 1 (fixed_clock 738000) 9 =
     Inr ([sample_property], 18)"
  by (simp add: create_realistic_property_data_def generate_def sample_step_at
      sample_property_def fixed_clock_def sub_days_def strftime_Ym_def
      ord2ym_def days_before_month_def Let_def)

lemma sample_run_later:
  "create_realistic_property_data counter_source 1 (fixed_clock 738100) 9 =
     Inr ([sample_property\<lparr>listing_date := \<lparr>ordinal = 737977, microsecond_of_day = 0\<rparr>,
                           month_listed := ''2021-07''\<rparr>], 18)"
  by (simp add: create_realistic_property_data_def generate_def sample_step_at
      sample_property_def fixed_clock_def sub_days_def strftime_Ym_def
      ord2ym_def days_before_month_def Let_def)

section \<open>Determinism\<close>

text \<open>
  C1 (as amended). For a fixed count and a fixed starting state of the random source, two
  invocations agree on the outcome (the same error, or sequences of the same length), on
  the state in which they leave the random source, and on every field of every record
  other than \<open>listing_date\<close> and \<open>month_listed\<close>, whatever the clock reads during
  either invocation; and they agree on the two date fields as well when the clock reads
  the same in both.
\<close>

theorem C1_determinism_up_to_the_clock:
  "map_sum id (apfst (map undated)) (create_realistic_property_data R n clock1 s) =
   map_sum id (apfst (map undated)) (create_realistic_property_data R n clock2 s) \<and>
   ((\<forall>i<nat n. clock1 i = clock2 i) \<longrightarrow>
    create_realistic_property_data R n clock1 s = create_realistic_property_data R n clock2 s)"
proof (intro conjI impI)
  show "map_sum id (apfst (map undated)) (create_realistic_property_data R n clock1 s) =
        map_sum id (apfst (map undated)) (create_realistic_property_data R n clock2 s)"
    unfolding create_realistic_property_data_def generate_def
    by (rule generate_loop_undated) simp
next
  assume "\<forall>i<nat n. clock1 i = clock2 i"
  then show "create_realistic_property_data R n clock1 s =
             create_realistic_property_data R n clock2 s"
    unfolding create_realistic_property_data_def generate_def
    by (intro generate_loop_clock_cong) simp
qed

text \<open>
  The amended C1 for one record and two clocks that read the same in the first iteration
  and differ afterwards.
\<close>

theorem C1_witness:
  "create_realistic_property_data counter_source 1 (fixed_clock 738000) 9 =
   create_realistic_property_data counter_source 1
     (\<lambda>i. \<lparr>ordinal = 738000 + int i, microsecond_of_day = 0\<rparr>) 9"
  using C1_determinism_up_to_the_clock
    [of counter_source 1 "fixed_clock 738000" 9
        "\<lambda>i. \<lparr>ordinal = 738000 + int i, microsecond_of_day = 0\<rparr>"]
  by (simp add: fixed_clock_def)

text \<open>
  C1 as stated fails: the same source in the same state, the same count and the same
  tables give different sequences when the clock reads day 738000 and when it reads day
  738100; the listing date is 2021-03-28 in the first and 2021-07-06 in the second.
\<close>

theorem C1_counterexample:
  "create_realistic_property_data counter_source 1 (fixed_clock 738000) 9 \<noteq>
   create_realistic_property_data counter_source 1 (fixed_clock 738100) 9"
  by (simp add: sample_run sample_run_later sample_property_def)

section \<open>Non-positive counts\<close>

text \<open>
  C2 (as amended). The generator does not validate its count: for a count of zero or
  below the loop body never runs, and the call returns the empty sequence, raises nothing
  and leaves the random source as it found it.
\<close>

theorem C2_nonpositive_count_returns_empty:
  "n \<le> 0 \<Longrightarrow> create_realistic_property_data R n clock s = Inr ([], s)"
  by (simp add: create_realistic_property_data_def generate_nonpositive)

text \<open>The amended C2 at count \<open>-5\<close>.\<close>

theorem C2_witness:
  "create_realistic_property_data counter_source (- 5) (fixed_clock 738000) 0 = Inr ([], 0)"
  using C2_nonpositive_count_returns_empty
    [of "- 5" counter_source "fixed_clock 738000" "0::nat"]
  by simp

text \<open>
  C2 as stated fails: with count \<open>0\<close> the call returns normally, with the empty
  sequence, instead of raising.
\<close>

theorem C2_counterexample:
  "create_realistic_property_data counter_source 0 (fixed_clock 738000) 0 = Inr ([], 0)"
  by (simp add: create_realistic_property_data_def generate_nonpositive)

section \<open>The stored price\<close>

text \<open>
  C3. The stored price of every generated record is the specification's formula applied
  to the record's own price per square foot, area, location score and age: nothing else,
  and no further draw, enters it.
\<close>

theorem C3_price_is_formula_of_stored_fields:
  assumes "create_realistic_property_data R n clock s = Inr (ps, s')" "p \<in> set ps"
  shows "price_lakhs p =
         spec_total_price (price_per_sqft p) (area_sqft p) (location_score p) (property_age_years p)"
proof -
  have "price_lakhs q = spec_total_price (price_per_sqft q) (area_sqft q) (location_score q)
          (property_age_years q)"
    if "one_property R cities_info property_types now t = Inr (q, t')" for now t q t'
    using one_property_Inr [OF that]
    by (auto simp: spec_total_price_def location_bonus_def age_penalty_def Let_def)
  then show ?thesis using assms by (rule create_records)
qed

text \<open>C3 at the sample run.\<close>

theorem C3_witness:
  "create_realistic_property_data counter_source 1 (fixed_clock 738000) 9 =
     Inr ([sample_property], 18) \<and>
   price_lakhs sample_property = spec_total_price 9000 544 6 16"
  using C3_price_is_formula_of_stored_fields [OF sample_run, of sample_property] sample_run
  by (simp add: sample_property_def)

section \<open>Cardinality\<close>

text \<open>
  C4. For every positive count \<open>n\<close> the generator returns, and what it returns is a
  sequence of exactly \<open>n\<close> records (given a random source that keeps to its ranges).
\<close>

theorem C4_positive_count_yields_count_records:
  assumes "source_ok R" "0 < n"
  shows "\<exists>ps s'. create_realistic_property_data R n clock s = Inr (ps, s') \<and> int (length ps) = n"
proof -
  have step: "\<exists>p s'. one_property R cities_info property_types now t = Inr (p, s')" for now t
    using assms(1) cities_info_nonempty property_types_nonempty property_types_ranges
    by (rule one_property_total)
  obtain ps s' where
    r: "generate_loop R cities_info property_types clock 0 (nat n) [] s = Inr (ps, s')"
    using generate_loop_total [of R cities_info property_types clock 0 "nat n" "[]" s] step
    by blast
  have "length ps = nat n" using generate_loop_length [OF r] by simp
  then show ?thesis using r assms(2)
    by (simp add: create_realistic_property_data_def generate_def)
qed

text \<open>C4 at count \<open>1\<close>, with the counter source.\<close>

theorem C4_witness:
  "\<exists>ps s'. create_realistic_property_data counter_source 1 (fixed_clock 738000) 9 = Inr (ps, s')
     \<and> int (length ps) = 1"
  using C4_positive_count_yields_count_records
    [OF source_ok_counter, of 1 "fixed_clock 738000" 9]
  by simp

section \<open>Floors and bounds\<close>

text \<open>
  C5. Every generated record has at least as many floors in its building as the floor it
  is on: \<open>total_floors\<close> is drawn from \<open>floor_number\<close> upwards.
\<close>

theorem C5_total_floors_ge_floor_number:
  assumes "source_ok R" "create_realistic_property_data R n clock s = Inr (ps, s')" "p \<in> set ps"
  shows "floor_number p \<le> total_floors p"
proof -
  have "floor_number q \<le> total_floors q"
    if "one_property R cities_info property_types now t = Inr (q, t')" for now t q t'
    using one_property_bounds [OF assms(1) that] by simp
  then show ?thesis using assms(2,3) by (rule create_records)
qed

text \<open>C5 at the sample run.\<close>

theorem C5_witness:
  "create_realistic_property_data counter_source 1 (fixed_clock 738000) 9 =
     Inr ([sample_property], 18) \<and>
   floor_number sample_property \<le> total_floors sample_property"
  using C5_total_floors_ge_floor_number [OF source_ok_counter sample_run, of sample_property]
    sample_run
  by simp

text \<open>
  C6. Every generated record has a location score from 1 to 10, an age from 0 to 25, a
  floor number from 1 to 20, and a number of floors from its floor number to 25.
\<close>

theorem C6_record_bounds:
  assumes "source_ok R" "create_realistic_property_data R n clock s = Inr (ps, s')" "p \<in> set ps"
  shows "1 \<le> location_score p \<and> location_score p \<le> 10 \<and>
         0 \<le> property_age_years p \<and> property_age_years p \<le> 25 \<and>
         1 \<le> floor_number p \<and> floor_number p \<le> 20 \<and>
         floor_number p \<le> total_floors p \<and> total_floors p \<le> 25"
  using one_property_bounds [OF assms(1)] assms(2,3) by (rule create_records)

text \<open>C6 at the sample run.\<close>

theorem C6_witness:
  "create_realistic_property_data counter_source 1 (fixed_clock 738000) 9 =
     Inr ([sample_property], 18) \<and>
   1 \<le> location_score sample_property \<and> location_score sample_property \<le> 10 \<and>
   0 \<le> property_age_years sample_property \<and> property_age_years sample_property \<le> 25 \<and>
   1 \<le> floor_number sample_property \<and> floor_number sample_property \<le> 20 \<and>
   floor_number sample_property \<le> total_floors sample_property \<and>
   total_floors sample_property \<le> 25"
  using C6_record_bounds [OF source_ok_counter sample_run, of sample_property] sample_run
  by simp

section \<open>Mumbai, 2BHK\<close>

text \<open>
  C7. Every generated record whose city is Mumbai and whose type is 2BHK has an area from
  480 to 720 and a price per square foot from 9000 to 21000. In float arithmetic the end
  points are met exactly: \<open>600 * 0.8\<close> and \<open>900 * 0.8\<close> round to 480 and 720, and
  \<open>15000 * (1 - 0.4)\<close> and \<open>15000 * (1 + 0.4)\<close> round to 9000 and 21000.
\<close>

theorem C7_mumbai_2bhk_ranges:
  assumes "source_ok R" "create_realistic_property_data R n clock s = Inr (ps, s')" "p \<in> set ps"
    and "city p = ''Mumbai''" "property_type p = ''2BHK''"
  shows "480 \<le> area_sqft p \<and> area_sqft p \<le> 720 \<and>
         9000 \<le> price_per_sqft p \<and> price_per_sqft p \<le> 21000"
proof -
  have "city q = ''Mumbai'' \<longrightarrow> property_type q = ''2BHK'' \<longrightarrow>
        480 \<le> area_sqft q \<and> area_sqft q \<le> 720 \<and>
        9000 \<le> price_per_sqft q \<and> price_per_sqft q \<le> 21000"
    if "one_property R cities_info property_types now t = Inr (q, t')" for now t q t'
    using mumbai_2bhk_step [OF assms(1) that] by blast
  then have "city p = ''Mumbai'' \<longrightarrow> property_type p = ''2BHK'' \<longrightarrow>
        480 \<le> area_sqft p \<and> area_sqft p \<le> 720 \<and>
        9000 \<le> price_per_sqft p \<and> price_per_sqft p \<le> 21000"
    using assms(2,3) by (rule create_records)
  then show ?thesis using assms(4,5) by blast
qed

text \<open>
  C7 at the sample run, whose record is a Mumbai 2BHK with the lowest price per square
  foot the range allows.
\<close>

theorem C7_witness:
  "create_realistic_property_data counter_source 1 (fixed_clock 738000) 9 =
     Inr ([sample_property], 18) \<and>
   city sample_property = ''Mumbai'' \<and> property_type sample_property = ''2BHK'' \<and>
   480 \<le> area_sqft sample_property \<and> area_sqft sample_property \<le> 720 \<and>
   9000 \<le> price_per_sqft sample_property \<and> price_per_sqft sample_property \<le> 21000"
proof -
  have c: "city sample_property = ''Mumbai''" and t: "property_type sample_property = ''2BHK''"
    by (simp_all add: sample_property_def)
  have m: "sample_property \<in> set [sample_property]" by simp
  show ?thesis
    using C7_mumbai_2bhk_ranges [OF source_ok_counter sample_run m c t] sample_run c t
    by simp
qed

section \<open>Effects\<close>



section \<open>Positive prices\<close>

text \<open>
  C10. Every generated record has a positive stored price: its area and its price per
  square foot are positive, its location bonus is at least 0.92 and its age penalty at
  least 0.75, and the rounded product is positive.
\<close>

theorem C10_price_positive:
  assumes "source_ok R" "create_realistic_property_data R n clock s = Inr (ps, s')" "p \<in> set ps"
  shows "0 < area_sqft p \<and> 0 < price_per_sqft p \<and>
         92 / 100 \<le> location_bonus (location_score p) \<and>
         3 / 4 \<le> age_penalty (property_age_years p) \<and>
         0 < price_lakhs p"
  using positive_price_step [OF assms(1)] assms(2,3) by (rule create_records)

text \<open>C10 at the sample run.\<close>

theorem C10_witness:
  "create_realistic_property_data counter_source 1 (fixed_clock 738000) 9 =
     Inr ([sample_property], 18) \<and>
   0 < area_sqft sample_property \<and> 0 < price_per_sqft sample_property \<and>
   92 / 100 \<le> location_bonus (location_score sample_property) \<and>
   3 / 4 \<le> age_penalty (property_age_years sample_property) \<and>
   0 < price_lakhs sample_property"
  using C10_price_positive [OF source_ok_counter sample_run, of sample_property] sample_run
  by simp

end
